theory Spec2Isabelle
  imports Complex_Main "HOL-Library.Product_Lexorder"
begin

section \<open>Data model of the client (src/contexts/TransactionContext.tsx)\<close>

text \<open>
  JavaScript numbers are modelled as exact rationals: the rounding error of the IEEE
  double arithmetic is not part of the model. Calendar dates ("YYYY-MM-DD") are
  modelled by the date they spell, and two values \<^verbatim>\<open>new Date(s)\<close> are compared
  through (year, month, day), which is the order of their \<^verbatim>\<open>getTime()\<close>.
\<close>

datatype tx_type = Income | Expense

record date =
  dyear :: nat
  dmonth :: nat
  dday :: nat

record category_ref =
  c_id :: string
  c_name :: string
  c_color :: string

record transaction =
  t_id :: string
  user_id :: string
  amount :: rat
  type :: tx_type
  date :: date
  account :: "string option"
  document_no :: "string option"
  description :: "string option"
  category_id :: "string option"
  created_at :: "string option"
  updated_at :: "string option"
  categories :: "category_ref option"

section \<open>Client Ledger Cache\<close>

text \<open>
  What \<^verbatim>\<open>await fetch(...)\<close> and the reads of its body can give:
  \<^item> \<open>Throws\<close>: the fetch itself rejects (network error);
  \<^item> \<open>Failure status text msg\<close>: a reply with \<^verbatim>\<open>res.ok\<close> false; \<open>text\<close> is
    \<^verbatim>\<open>res.text()\<close>, \<open>msg\<close> is \<open>None\<close> when \<^verbatim>\<open>res.json()\<close> rejects and
    otherwise the \<^verbatim>\<open>message\<close> field of the parsed body, if it has one;
  \<^item> \<open>Success payload\<close>: a reply with \<^verbatim>\<open>res.ok\<close> true; \<open>payload\<close> is \<open>None\<close>
    when \<^verbatim>\<open>res.json()\<close> rejects.
\<close>

datatype 'a fetch_outcome =
    Throws
  | Failure nat string "string option option"
  | Success "'a option"

datatype client_error = FetchError | SyntaxError | Error string

text \<open>
  \<^verbatim>\<open>a || b\<close> on strings: the empty string is falsy, as are null and undefined
  (\<open>None\<close>).
\<close>

definition or_else :: "string option \<Rightarrow> string \<Rightarrow> string" where
  "or_else a b = (case a of None \<Rightarrow> b | Some s \<Rightarrow> if s = [] then b else s)"

text \<open>
  Each operation takes the cache (the React state \<^verbatim>\<open>transactions\<close>) and the outcome
  of its one fetch, and returns what the promise settles to (\<open>Inl\<close>: rejected with
  that error) together with the cache afterwards.
\<close>

definition fetchTransactions ::
  "transaction list \<Rightarrow> transaction list fetch_outcome \<Rightarrow> (client_error + unit) \<times> transaction list"
where
  "fetchTransactions prev res =
     (case res of
        Throws \<Rightarrow> (Inr (), prev)
      | Failure st txt msg \<Rightarrow> (Inr (), prev)
      | Success None \<Rightarrow> (Inr (), prev)
      | Success (Some data) \<Rightarrow> (Inr (), data))"

definition updateTransaction ::
  "transaction list \<Rightarrow> transaction \<Rightarrow> transaction fetch_outcome
     \<Rightarrow> (client_error + transaction) \<times> transaction list"
where
  "updateTransaction prev tx res =
     (case res of
        Throws \<Rightarrow> (Inl FetchError, prev)
      | Failure st txt None \<Rightarrow> (Inl SyntaxError, prev)
      | Failure st txt (Some msg) \<Rightarrow>
          (Inl (Error (or_else msg ''Failed to update transaction'')), prev)
      | Success None \<Rightarrow> (Inl SyntaxError, prev)
      | Success (Some updatedTx) \<Rightarrow>
          (Inr updatedTx, map (\<lambda>t. if t_id t = t_id tx then updatedTx else t) prev))"


text \<open>Sample records used by the concrete instances below.\<close>

definition mk_tx :: "string \<Rightarrow> rat \<Rightarrow> tx_type \<Rightarrow> nat \<Rightarrow> nat \<Rightarrow> nat \<Rightarrow> transaction" where
  "mk_tx i a ty y m d =
     \<lparr> t_id = i, user_id = ''u1'', amount = a, type = ty,
       date = \<lparr> dyear = y, dmonth = m, dday = d \<rparr>,
       account = None, document_no = None, description = None,
       category_id = None, created_at = None, updated_at = None, categories = None \<rparr>"

definition sample_cache :: "transaction list" where
  "sample_cache =
     [mk_tx ''a'' 1 Income 2024 1 10, mk_tx ''b'' 2 Expense 2024 1 11,
      mk_tx ''c'' 3 Income 2024 1 12]"

section \<open>Tax Calculator (supabase/functions/calculate-tax/index.ts)\<close>











section \<open>Reporting Aggregator (src/pages/Reports.tsx, generateReportData)\<close>

record CategoryData =
  name :: string
  val :: rat
  color :: string

text \<open>
  A month label such as "Jan 2024", which \<^verbatim>\<open>toLocaleDateString('en-US', {month:
  'short', year: 'numeric'})\<close> makes from a date, is modelled by the month it names:
  the pair (year, month). \<^verbatim>\<open>new Date(label)\<close> is the first day of that month, so
  the \<^verbatim>\<open>getTime()\<close> values of two labels compare as the pairs do, first by year
  and then by month. The local day is taken to be the calendar day of the date, as it
  is in every time zone at or east of UTC.
\<close>

type_synonym month_label = "nat \<times> nat"

record MonthlyData =
  month :: month_label
  income :: rat
  expenses :: rat
  profit :: rat

record report =
  totalIncome :: rat
  totalExpenses :: rat
  netBalance :: rat
  incomeByCategory :: "CategoryData list"
  expensesByCategory :: "CategoryData list"
  monthlyData :: "MonthlyData list"

definition getTime :: "date \<Rightarrow> nat \<times> nat \<times> nat" where
  "getTime d = (dyear d, dmonth d, dday d)"

definition toLocaleDateString :: "date \<Rightarrow> month_label" where
  "toLocaleDateString d = (dyear d, dmonth d)"

text \<open>
  A JavaScript \<^verbatim>\<open>Map\<close> keeps its keys in insertion order; \<^verbatim>\<open>set\<close> on a key
  that is present replaces the value where it stands, and on a new key appends.
  \<^verbatim>\<open>get\<close> is \<open>map_of\<close>.
\<close>

fun map_set :: "'k \<Rightarrow> 'v \<Rightarrow> ('k \<times> 'v) list \<Rightarrow> ('k \<times> 'v) list" where
  "map_set k v [] = [(k, v)]"
| "map_set k v (p # m) = (if fst p = k then (k, v) # m else p # map_set k v m)"

definition truthy :: "string option \<Rightarrow> bool" where
  "truthy s = (case s of None \<Rightarrow> False | Some x \<Rightarrow> x \<noteq> [])"

definition filteredTransactions :: "transaction list \<Rightarrow> date \<Rightarrow> date \<Rightarrow> transaction list" where
  "filteredTransactions transactions startDate endDate =
     filter (\<lambda>t. getTime (date t) \<ge> getTime startDate \<and> getTime (date t) \<le> getTime endDate)
       transactions"

text \<open>
  The body shared by the two branches of the category loop:
  \<^verbatim>\<open>map.set(k, { value: (existing?.value || 0) + Number(t.amount), color })\<close> on the
  map picked by the type. An entry is the pair (value, color).
\<close>

type_synonym category_map = "(string \<times> rat \<times> string) list"

definition add_to :: "string \<Rightarrow> rat \<Rightarrow> string \<Rightarrow> category_map \<Rightarrow> category_map" where
  "add_to k a col m =
     map_set k ((case map_of m k of None \<Rightarrow> 0 | Some existing \<Rightarrow> fst existing) + a, col) m"

definition on_map_of_type ::
  "tx_type \<Rightarrow> (category_map \<Rightarrow> category_map) \<Rightarrow> category_map \<times> category_map
     \<Rightarrow> category_map \<times> category_map"
where
  "on_map_of_type ty f maps =
     (case maps of (incomeMap, expensesMap) \<Rightarrow>
        if ty = Income then (f incomeMap, expensesMap) else (incomeMap, f expensesMap))"

definition category_step ::
  "transaction \<Rightarrow> category_map \<times> category_map \<Rightarrow> category_map \<times> category_map"
where
  "category_step t maps =
     (case categories t of
        Some c \<Rightarrow>
          on_map_of_type (type t)
            (add_to (c_name c) (amount t) (or_else (Some (c_color c)) ''#8884d8'')) maps
      | None \<Rightarrow>
          if truthy (category_id t) then
            on_map_of_type (type t)
              (add_to (if type t = Income then ''Uncategorized Income'' else ''Uncategorized Expense'')
                 (amount t) (if type t = Income then ''#10b981'' else ''#ef4444'')) maps
          else maps)"

definition category_entries :: "category_map \<Rightarrow> CategoryData list" where
  "category_entries m = map (\<lambda>(k, data). \<lparr> name = k, val = fst data, color = snd data \<rparr>) m"

text \<open>An entry of the monthly map is the triple (income, expenses, profit).\<close>

type_synonym monthly_map = "(month_label \<times> rat \<times> rat \<times> rat) list"

definition monthly_step :: "transaction \<Rightarrow> monthly_map \<Rightarrow> monthly_map" where
  "monthly_step t monthlyMap =
     (let k = toLocaleDateString (date t);
          existing = (case map_of monthlyMap k of None \<Rightarrow> (0, 0, 0) | Some e \<Rightarrow> e);
          inc = (if type t = Income then fst existing + amount t else fst existing);
          exp = (if type t = Income then fst (snd existing) else fst (snd existing) + amount t)
      in map_set k (inc, exp, inc - exp) monthlyMap)"

text \<open>
  \<^verbatim>\<open>Array.prototype.sort\<close> is stable; with the comparator
  \<^verbatim>\<open>dateA.getTime() - dateB.getTime()\<close> it is the stable sort by that key.
\<close>

definition sortedMonthlyData :: "monthly_map \<Rightarrow> MonthlyData list" where
  "sortedMonthlyData monthlyMap =
     sort_key month
       (map (\<lambda>(k, data). \<lparr> month = k, income = fst data, expenses = fst (snd data),
                            profit = snd (snd data) \<rparr>) monthlyMap)"

definition generateReportData :: "transaction list \<Rightarrow> date \<Rightarrow> date \<Rightarrow> report" where
  "generateReportData transactions startDate endDate =
     (let filtered = filteredTransactions transactions startDate endDate;
          inc = foldl (\<lambda>sum t. sum + amount t) 0 (filter (\<lambda>t. type t = Income) filtered);
          exp = foldl (\<lambda>sum t. sum + amount t) 0 (filter (\<lambda>t. type t = Expense) filtered);
          maps = fold category_step filtered ([], []);
          monthlyMap = fold monthly_step filtered []
      in \<lparr> totalIncome = inc,
           totalExpenses = exp,
           netBalance = inc - exp,
           incomeByCategory = category_entries (fst maps),
           expensesByCategory = category_entries (snd maps),
           monthlyData = sortedMonthlyData monthlyMap \<rparr>)"

subsection \<open>What the report is compared with\<close>

text \<open>
  The income and the expense sum of a month over a transaction list, and the
  chronological order of two trend entries: by the year of their months, then by the
  month.
\<close>

definition month_income :: "month_label \<Rightarrow> transaction list \<Rightarrow> rat" where
  "month_income k ts = sum_list (map amount (filter (\<lambda>t. type t = Income \<and> toLocaleDateString (date t) = k) ts))"

definition month_expenses :: "month_label \<Rightarrow> transaction list \<Rightarrow> rat" where
  "month_expenses k ts = sum_list (map amount (filter (\<lambda>t. type t = Expense \<and> toLocaleDateString (date t) = k) ts))"


text \<open>
  The display name under which a transaction is counted in the breakdown of its type,
  if any, and the colour it brings: those of its joined category (with the fallback
  \<^verbatim>\<open>#8884d8\<close> for an empty colour), or the synthetic label and the fixed colour of
  its type when it has a category reference but no joined category. \<open>members ty n ts\<close>
  are the transactions of type \<open>ty\<close> in \<open>ts\<close> counted under the name \<open>n\<close>.
\<close>

definition uncategorized_label :: "tx_type \<Rightarrow> string" where
  "uncategorized_label ty = (if ty = Income then ''Uncategorized Income'' else ''Uncategorized Expense'')"

definition uncategorized_color :: "tx_type \<Rightarrow> string" where
  "uncategorized_color ty = (if ty = Income then ''#10b981'' else ''#ef4444'')"

definition bucket_name :: "transaction \<Rightarrow> string option" where
  "bucket_name t =
     (case categories t of
        Some c \<Rightarrow> Some (c_name c)
      | None \<Rightarrow>
          if truthy (category_id t)
          then Some (if type t = Income then ''Uncategorized Income'' else ''Uncategorized Expense'')
          else None)"

definition bucket_color :: "transaction \<Rightarrow> string" where
  "bucket_color t =
     (case categories t of
        Some c \<Rightarrow> if c_color c = [] then ''#8884d8'' else c_color c
      | None \<Rightarrow> if type t = Income then ''#10b981'' else ''#ef4444'')"

definition members :: "tx_type \<Rightarrow> string \<Rightarrow> transaction list \<Rightarrow> transaction list" where
  "members ty n ts = filter (\<lambda>t. type t = ty \<and> bucket_name t = Some n) ts"

definition map_of_type :: "tx_type \<Rightarrow> category_map \<times> category_map \<Rightarrow> category_map" where
  "map_of_type ty maps = (if ty = Income then fst maps else snd maps)"

definition breakdown :: "tx_type \<Rightarrow> report \<Rightarrow> CategoryData list" where
  "breakdown ty r = (if ty = Income then incomeByCategory r else expensesByCategory r)"


definition mk_date :: "nat \<Rightarrow> nat \<Rightarrow> nat \<Rightarrow> date" where
  "mk_date y m d = \<lparr> dyear = y, dmonth = m, dday = d \<rparr>"


definition sales :: category_ref where
  "sales = \<lparr> c_id = ''4'', c_name = ''Sales'', c_color = ''#3b82f6'' \<rparr>"

definition breakdown_txs :: "transaction list" where
  "breakdown_txs =
     [(mk_tx ''1'' 100 Income 2024 1 10) \<lparr> category_id := Some ''4'', categories := Some sales \<rparr>,
      (mk_tx ''2'' 50 Income 2024 1 11) \<lparr> category_id := Some ''7'' \<rparr>,
      (mk_tx ''3'' 30 Expense 2024 1 12) \<lparr> category_id := Some ''9'' \<rparr>,
      (mk_tx ''4'' 20 Income 2024 1 13) \<lparr> category_id := Some ''4'', categories := Some sales \<rparr>]"

section \<open>Ledger Store and Ledger API (server.js)\<close>

text \<open>
  The server is the variant of \<^verbatim>\<open>server.js\<close> that creates its tables
  (\<^verbatim>\<open>initializeDatabase\<close>) and registers the PUT and DELETE routes which the client
  calls; in src it is the last part of contexts/AuthContext.tsx. Its handlers of
  login, signup and \<^verbatim>\<open>POST /api/transactions\<close> are those of backend/server.js,
  which registers no DELETE route. The tables are those that
  \<^verbatim>\<open>initializeDatabase\<close> creates. A row is a record; the
  \<^verbatim>\<open>SERIAL\<close> key of a table comes from a sequence that the store keeps. A timestamp is
  the text the clock gives. \<^verbatim>\<open>VARCHAR(n)\<close> is checked by the length of the string.
\<close>

record users_row =
  u_id :: nat
  u_name :: "string option"
  u_email :: string
  u_user_type :: string
  u_organization_name :: "string option"
  u_organization_id :: "string option"
  u_password :: string
  u_created_at :: string

record categories_row =
  k_id :: nat
  k_name :: string
  k_type :: string
  k_color :: "string option"
  k_created_at :: string

record transactions_row =
  row_id :: nat
  row_user_id :: "nat option"
  row_amount :: rat
  row_type :: string
  row_date :: date
  row_account :: "string option"
  row_document_no :: "string option"
  row_description :: "string option"
  row_category_id :: "nat option"
  row_created_at :: string

record store =
  users :: "users_row list"
  users_id_seq :: nat
  categories_table :: "categories_row list"
  transactions :: "transactions_row list"
  transactions_id_seq :: nat

text \<open>
  The error conditions with which a statement of the handlers can fail; in a reply,
  the text of the Postgres message is stood for by the name of the condition.
\<close>

datatype db_error =
    not_null_violation
  | unique_violation
  | foreign_key_violation
  | string_data_right_truncation
  | numeric_value_out_of_range
  | invalid_text_representation







definition varchar :: "nat \<Rightarrow> string option \<Rightarrow> bool" where
  "varchar n s = (case s of None \<Rightarrow> True | Some x \<Rightarrow> length x \<le> n)"

subsection \<open>JSON replies\<close>

datatype json =
    JNull
  | JStr string
  | JNum rat
  | JDate date
  | JArr "json list"
  | JObj "(string \<times> json) list"

record http_response =
  status :: nat
  body :: json

definition json_opt :: "string option \<Rightarrow> json" where
  "json_opt s = (case s of None \<Rightarrow> JNull | Some x \<Rightarrow> JStr x)"


text \<open>\<^verbatim>\<open>SELECT *\<close> and \<^verbatim>\<open>RETURNING *\<close>: a row as the object of all its columns.\<close>

definition users_columns :: "users_row \<Rightarrow> (string \<times> json) list" where
  "users_columns u =
     [(''id'', JNum (of_nat (u_id u))),
      (''name'', json_opt (u_name u)),
      (''email'', JStr (u_email u)),
      (''user_type'', JStr (u_user_type u)),
      (''organization_name'', json_opt (u_organization_name u)),
      (''organization_id'', json_opt (u_organization_id u)),
      (''password'', JStr (u_password u)),
      (''created_at'', JStr (u_created_at u))]"


text \<open>\<^verbatim>\<open>RETURNING c1, c2, ...\<close>: the named columns of the row, in that order.\<close>

fun returning :: "string list \<Rightarrow> (string \<times> json) list \<Rightarrow> (string \<times> json) list" where
  "returning [] row = []"
| "returning (c # cs) row =
     (case map_of row c of None \<Rightarrow> returning cs row | Some v \<Rightarrow> (c, v) # returning cs row)"

text \<open>\<^verbatim>\<open>x || null\<close> on an optional string.\<close>

definition or_null :: "string option \<Rightarrow> string option" where
  "or_null s = (if truthy s then s else None)"

subsection \<open>POST /api/login and POST /api/signup\<close>

record login_body =
  lb_email :: "string option"
  lb_password :: "string option"

text \<open>
  \<open>compare\<close> stands for \<^verbatim>\<open>bcrypt.compare\<close> and \<open>hash\<close>, below, for
  \<^verbatim>\<open>bcrypt.hash(password, 10)\<close>.
\<close>

definition login :: "store \<Rightarrow> (string \<Rightarrow> string \<Rightarrow> bool) \<Rightarrow> login_body \<Rightarrow> http_response" where
  "login db compare req =
     (if \<not> truthy (lb_email req) \<or> \<not> truthy (lb_password req) then
        \<lparr> status = 400, body = JObj [(''message'', JStr ''Email and password are required'')] \<rparr>
      else
        (case filter (\<lambda>u. Some (u_email u) = lb_email req) (users db) of
           [] \<Rightarrow> \<lparr> status = 400, body = JObj [(''message'', JStr ''Invalid email or password'')] \<rparr>
         | u # rest \<Rightarrow>
             let user = users_columns u in
             if \<not> compare (the (lb_password req)) (u_password u) then
               \<lparr> status = 400, body = JObj [(''message'', JStr ''Invalid email or password'')] \<rparr>
             else
               let userWithoutPassword = filter (\<lambda>kv. fst kv \<noteq> ''password'') user in
               \<lparr> status = 200,
                 body = JObj [(''message'', JStr ''Login successful''),
                              (''user'', JObj userWithoutPassword)] \<rparr>))"

record signup_body =
  sb_name :: "string option"
  sb_email :: "string option"
  sb_user_type :: "string option"
  sb_organization_name :: "string option"
  sb_organization_id :: "string option"
  sb_password :: "string option"

text \<open>
  \<^verbatim>\<open>INSERT INTO users (...) VALUES (...)\<close>: the key is drawn from the sequence, then
  the constraints of the table are checked.
\<close>

definition insert_user ::
  "store \<Rightarrow> string \<Rightarrow> string option \<Rightarrow> string \<Rightarrow> string \<Rightarrow> string option \<Rightarrow> string option \<Rightarrow> string
     \<Rightarrow> (db_error + users_row) \<times> store"
where
  "insert_user db now nm email user_type org_name org_id password =
     (let i = users_id_seq db + 1;
          db' = db \<lparr> users_id_seq := i \<rparr>;
          row = \<lparr> u_id = i, u_name = nm, u_email = email, u_user_type = user_type,
                  u_organization_name = org_name, u_organization_id = org_id,
                  u_password = password, u_created_at = now \<rparr>
      in if \<not> (varchar 255 nm \<and> varchar 255 (Some email) \<and> varchar 50 (Some user_type) \<and>
                varchar 255 org_name \<and> varchar 255 org_id \<and> varchar 255 (Some password))
         then (Inl string_data_right_truncation, db')
         else if email \<in> u_email ` set (users db) then (Inl unique_violation, db')
         else (Inr row, db' \<lparr> users := users db @ [row] \<rparr>))"

definition signup ::
  "store \<Rightarrow> (string \<Rightarrow> string) \<Rightarrow> string \<Rightarrow> signup_body \<Rightarrow> http_response \<times> store"
where
  "signup db hash now req =
     (if \<not> truthy (sb_email req) \<or> \<not> truthy (sb_user_type req) \<or> \<not> truthy (sb_password req) then
        (\<lparr> status = 400,
           body = JObj [(''message'', JStr ''Email, user_type and password are required'')] \<rparr>, db)
      else
        let hashedPassword = hash (the (sb_password req)) in
        (case insert_user db now (or_null (sb_name req)) (the (sb_email req))
                (the (sb_user_type req)) (or_null (sb_organization_name req))
                (or_null (sb_organization_id req)) hashedPassword of
           (Inl err, db') \<Rightarrow>
             (\<lparr> status = 500, body = JObj [(''message'', JStr ''Internal server error'')] \<rparr>, db')
         | (Inr row, db') \<Rightarrow>
             (\<lparr> status = 201,
                body = JObj (returning [''id'', ''name'', ''email'', ''user_type'',
                                        ''organization_name'', ''organization_id'']
                               (users_columns row)) \<rparr>, db')))"

subsection \<open>POST /api/transactions and DELETE /api/transactions/:id\<close>











text \<open>Sample stores and requests for the concrete instances.\<close>

definition sample_user :: users_row where
  "sample_user =
     \<lparr> u_id = 1, u_name = Some ''Bat'', u_email = ''bat@example.mn'', u_user_type = ''individual'',
       u_organization_name = None, u_organization_id = None,
       u_password = ''$2b$10$hash'', u_created_at = ''2024-01-01 00:00:00'' \<rparr>"

definition sample_row :: "nat \<Rightarrow> rat \<Rightarrow> string \<Rightarrow> transactions_row" where
  "sample_row i a ty =
     \<lparr> row_id = i, row_user_id = Some 1, row_amount = a, row_type = ty,
       row_date = \<lparr> dyear = 2024, dmonth = 1, dday = 10 \<rparr>, row_account = None,
       row_document_no = None, row_description = None, row_category_id = None,
       row_created_at = ''2024-01-10 09:00:00'' \<rparr>"

definition sample_store :: store where
  "sample_store =
     \<lparr> users = [sample_user], users_id_seq = 1, categories_table = [],
       transactions = [sample_row 1 100 ''income'', sample_row 2 40 ''expense''],
       transactions_id_seq = 2 \<rparr>"


definition sample_compare :: "string \<Rightarrow> string \<Rightarrow> bool" where
  "sample_compare password hashed = (password = ''secret'' \<and> hashed = ''$2b$10$hash'')"

definition sample_hash :: "string \<Rightarrow> string" where
  "sample_hash password = ''$2b$10$'' @ password"

definition sample_login :: login_body where
  "sample_login = \<lparr> lb_email = Some ''bat@example.mn'', lb_password = Some ''secret'' \<rparr>"

definition sample_signup :: signup_body where
  "sample_signup =
     \<lparr> sb_name = Some ''Dorj'', sb_email = Some ''dorj@example.mn'',
       sb_user_type = Some ''individual'', sb_organization_name = Some [],
       sb_organization_id = None, sb_password = Some ''pw'' \<rparr>"

section \<open>Theorems about the cache\<close>

text \<open>
  C7. A successful \<^verbatim>\<open>updateTransaction\<close> resolves to the server's record and leaves
  a cache of the same length in which every position that held a record with the
  submitted id now holds the server's record and every other position holds what it
  held before; so nothing moves, and with the id present once exactly that record is
  replaced.
\<close>

theorem updateTransaction_replaces_in_place:
  "updateTransaction prev tx (Success (Some updatedTx)) = (r, cache') \<Longrightarrow>
     r = Inr updatedTx \<and>
     length cache' = length prev \<and>
     (\<forall>i < length prev.
        cache' ! i = (if t_id (prev ! i) = t_id tx then updatedTx else prev ! i)) \<and>
     (\<forall>xs t ys. prev = xs @ t # ys \<and> t_id t = t_id tx \<and>
        (\<forall>u \<in> set (xs @ ys). t_id u \<noteq> t_id tx) \<longrightarrow> cache' = xs @ updatedTx # ys)"
  by (auto simp: updateTransaction_def intro!: map_idI)

text \<open>
  An instance: the record with id b, second of three, is replaced where it stands.
\<close>

theorem updateTransaction_replaces_in_place_witness:
  "updateTransaction sample_cache (mk_tx ''b'' 5 Expense 2024 1 11)
     (Success (Some (mk_tx ''b'' 7 Expense 2024 1 11)))
   = (Inr (mk_tx ''b'' 7 Expense 2024 1 11),
      [mk_tx ''a'' 1 Income 2024 1 10, mk_tx ''b'' 7 Expense 2024 1 11,
       mk_tx ''c'' 3 Income 2024 1 12])"
proof -
  let ?res = "updateTransaction sample_cache (mk_tx ''b'' 5 Expense 2024 1 11)
                (Success (Some (mk_tx ''b'' 7 Expense 2024 1 11)))"
  have e: "?res = (fst ?res, snd ?res)"
    by simp
  have split: "sample_cache =
      [mk_tx ''a'' 1 Income 2024 1 10] @ mk_tx ''b'' 2 Expense 2024 1 11 #
      [mk_tx ''c'' 3 Income 2024 1 12]"
    by (simp add: sample_cache_def)
  have ids: "t_id (mk_tx ''b'' 2 Expense 2024 1 11) = t_id (mk_tx ''b'' 5 Expense 2024 1 11)"
    "\<forall>u \<in> set ([mk_tx ''a'' 1 Income 2024 1 10] @ [mk_tx ''c'' 3 Income 2024 1 12]).
       t_id u \<noteq> t_id (mk_tx ''b'' 5 Expense 2024 1 11)"
    by (simp_all add: mk_tx_def)
  from updateTransaction_replaces_in_place [OF e]
  have "fst ?res = Inr (mk_tx ''b'' 7 Expense 2024 1 11)"
    and "snd ?res = [mk_tx ''a'' 1 Income 2024 1 10] @ mk_tx ''b'' 7 Expense 2024 1 11 #
           [mk_tx ''c'' 3 Income 2024 1 12]"
    using split ids by blast+
  then show ?thesis
    by (simp add: prod_eq_iff)
qed

text \<open>
  C10. When the fetch fails (it rejects, the reply is not ok, or its body does not
  parse), \<^verbatim>\<open>fetchTransactions\<close> still resolves normally and the cache is what it
  was; on a successful fetch the cache is the server's result set. Hence the promise
  never rejects, and a cache that changed was replaced by a successful fetch.
\<close>

theorem fetchTransactions_failure_keeps_cache:
  "fetchTransactions prev Throws = (Inr (), prev) \<and>
   fetchTransactions prev (Failure st txt msg) = (Inr (), prev) \<and>
   fetchTransactions prev (Success None) = (Inr (), prev) \<and>
   fetchTransactions prev (Success (Some data)) = (Inr (), data) \<and>
   fst (fetchTransactions prev res) = Inr () \<and>
   (snd (fetchTransactions prev res) \<noteq> prev \<longrightarrow>
      (\<exists>data. res = Success (Some data) \<and> snd (fetchTransactions prev res) = data))"
  by (auto simp: fetchTransactions_def split: fetch_outcome.splits option.splits)

text \<open>
  An instance: a reply 500 leaves the cache as it is, and an empty result set
  replaces it.
\<close>

theorem fetchTransactions_failure_keeps_cache_witness:
  "fetchTransactions sample_cache (Failure 500 ''Internal server error'' None)
     = (Inr (), sample_cache) \<and>
   snd (fetchTransactions sample_cache (Success (Some []))) \<noteq> sample_cache \<and>
   snd (fetchTransactions sample_cache (Success (Some []))) = []"
proof -
  have ne: "snd (fetchTransactions sample_cache (Success (Some []))) \<noteq> sample_cache"
    by (simp add: fetchTransactions_def sample_cache_def)
  from fetchTransactions_failure_keeps_cache
         [of sample_cache 500 "''Internal server error''" None "[]" "Success (Some [])"] ne
  show ?thesis
    by auto
qed

section \<open>Theorems about the Tax Calculator\<close>










section \<open>Theorems about the Reporting Aggregator\<close>

lemma foldl_add_sum: "foldl (\<lambda>sum t. sum + f t) a xs = a + sum_list (map f xs)"
  by (induction xs arbitrary: a) (simp_all add: add.assoc)

lemma map_of_map_set: "map_of (map_set k v m) = (map_of m)(k \<mapsto> v)"
  by (induction m) (auto simp: fun_eq_iff)

lemma keys_map_set: "fst ` set (map_set k v m) = insert k (fst ` set m)"
  by (induction m) auto

lemma distinct_map_set: "distinct (map fst m) \<Longrightarrow> distinct (map fst (map_set k v m))"
  by (induction m) (auto simp: keys_map_set)

lemma month_income_snoc:
  "month_income k (ts @ [t]) =
     month_income k ts + (if type t = Income \<and> toLocaleDateString (date t) = k then amount t else 0)"
  by (simp add: month_income_def)

lemma month_expenses_snoc:
  "month_expenses k (ts @ [t]) =
     month_expenses k ts + (if type t = Expense \<and> toLocaleDateString (date t) = k then amount t else 0)"
  by (simp add: month_expenses_def)

lemma month_income_absent:
  "k \<notin> (\<lambda>t. toLocaleDateString (date t)) ` set ts \<Longrightarrow> month_income k ts = 0"
  by (induction ts) (auto simp: month_income_def)

lemma month_expenses_absent:
  "k \<notin> (\<lambda>t. toLocaleDateString (date t)) ` set ts \<Longrightarrow> month_expenses k ts = 0"
  by (induction ts) (auto simp: month_expenses_def)

lemma map_of_monthly_step:
  "map_of (monthly_step t M) =
     (map_of M)(toLocaleDateString (date t) \<mapsto>
        (let existing = (case map_of M (toLocaleDateString (date t)) of None \<Rightarrow> (0, 0, 0) | Some e \<Rightarrow> e);
             inc = fst existing + (if type t = Income then amount t else 0);
             exp = fst (snd existing) + (if type t = Expense then amount t else 0)
         in (inc, exp, inc - exp)))"
  by (cases "type t") (simp_all add: monthly_step_def Let_def map_of_map_set)

lemma keys_monthly_step:
  "fst ` set (monthly_step t M) = insert (toLocaleDateString (date t)) (fst ` set M)"
  by (simp add: monthly_step_def Let_def keys_map_set)

lemma distinct_monthly_step:
  "distinct (map fst M) \<Longrightarrow> distinct (map fst (monthly_step t M))"
  by (simp add: monthly_step_def Let_def distinct_map_set)

lemma monthly_map_lookup:
  "map_of (fold monthly_step ts []) k =
     (if k \<in> (\<lambda>t. toLocaleDateString (date t)) ` set ts
      then Some (month_income k ts, month_expenses k ts, month_income k ts - month_expenses k ts)
      else None)"
proof (induction ts arbitrary: k rule: rev_induct)
  case Nil
  then show ?case by simp
next
  case (snoc t ts)
  let ?M = "fold monthly_step ts []"
  let ?kt = "toLocaleDateString (date t)"
  show ?case
  proof (cases "k = ?kt")
    case False
    then show ?thesis
      using snoc.IH [of k]
      by (simp add: map_of_monthly_step month_income_snoc month_expenses_snoc)
  next
    case True
    have ex: "(case map_of ?M ?kt of None \<Rightarrow> (0, 0, 0) | Some e \<Rightarrow> e) =
          (month_income ?kt ts, month_expenses ?kt ts, month_income ?kt ts - month_expenses ?kt ts)"
      using snoc.IH [of ?kt]
      by (simp add: month_income_absent month_expenses_absent)
    show ?thesis
      unfolding True
      by (simp add: map_of_monthly_step Let_def ex month_income_snoc month_expenses_snoc)
  qed
qed

lemma monthly_map_keys:
  "fst ` set (fold monthly_step ts []) = (\<lambda>t. toLocaleDateString (date t)) ` set ts"
proof (induction ts rule: rev_induct)
  case Nil
  then show ?case by simp
next
  case (snoc t ts)
  then show ?case by (simp add: keys_monthly_step)
qed

lemma monthly_map_distinct: "distinct (map fst (fold monthly_step ts []))"
proof (induction ts rule: rev_induct)
  case Nil
  then show ?case by simp
next
  case (snoc t ts)
  then show ?case by (simp add: distinct_monthly_step)
qed

lemma monthly_map_entry:
  assumes "(k, d) \<in> set (fold monthly_step ts [])"
  shows "d = (month_income k ts, month_expenses k ts, month_income k ts - month_expenses k ts)"
proof -
  have "map_of (fold monthly_step ts []) k = Some d"
    using assms monthly_map_distinct [of ts] by simp
  then show ?thesis
    by (simp add: monthly_map_lookup split: if_splits)
qed


lemma set_sortedMonthlyData:
  "set (sortedMonthlyData M) =
     (\<lambda>(k, data). \<lparr> month = k, income = fst data, expenses = fst (snd data),
                            profit = snd (snd data) \<rparr>) ` set M"
  by (simp add: sortedMonthlyData_def)









lemma category_step_bucket:
  "category_step t maps =
     (case bucket_name t of
        None \<Rightarrow> maps
      | Some n \<Rightarrow> on_map_of_type (type t) (add_to n (amount t) (bucket_color t)) maps)"
  by (simp add: category_step_def bucket_name_def bucket_color_def or_else_def
      split: option.splits)

lemma map_of_type_step:
  "map_of_type ty (category_step t maps) =
     (if type t = ty
      then (case bucket_name t of
              None \<Rightarrow> map_of_type ty maps
            | Some n \<Rightarrow> add_to n (amount t) (bucket_color t) (map_of_type ty maps))
      else map_of_type ty maps)"
  by (cases ty; cases "type t"; cases maps)
     (simp_all add: category_step_bucket map_of_type_def on_map_of_type_def split: option.splits)

lemma map_of_add_to:
  "map_of (add_to k a col m) =
     (map_of m)(k \<mapsto> ((case map_of m k of None \<Rightarrow> 0 | Some existing \<Rightarrow> fst existing) + a, col))"
  by (simp add: add_to_def map_of_map_set)

lemma keys_add_to: "fst ` set (add_to k a col m) = insert k (fst ` set m)"
  by (simp add: add_to_def keys_map_set)

lemma distinct_add_to: "distinct (map fst m) \<Longrightarrow> distinct (map fst (add_to k a col m))"
  by (simp add: add_to_def distinct_map_set)

lemma members_snoc:
  "members ty n (ts @ [t]) =
     members ty n ts @ (if type t = ty \<and> bucket_name t = Some n then [t] else [])"
  by (simp add: members_def)

lemma category_map_lookup:
  "map_of (map_of_type ty (fold category_step ts ([], []))) n =
     (if members ty n ts = [] then None
      else Some (sum_list (map amount (members ty n ts)), bucket_color (last (members ty n ts))))"
proof (induction ts arbitrary: n rule: rev_induct)
  case Nil
  then show ?case by (simp add: map_of_type_def members_def)
next
  case (snoc t ts)
  let ?m = "map_of_type ty (fold category_step ts ([], []))"
  show ?case
  proof (cases "type t = ty \<and> bucket_name t = Some n")
    case True
    then show ?thesis
      using snoc.IH [of n]
      by (simp add: map_of_type_step map_of_add_to members_snoc)
  next
    case False
    then show ?thesis
      using snoc.IH [of n]
      by (auto simp: map_of_type_step map_of_add_to members_snoc split: option.splits)
  qed
qed

lemma category_map_keys:
  "fst ` set (map_of_type ty (fold category_step ts ([], []))) =
     {n. \<exists>t \<in> set ts. type t = ty \<and> bucket_name t = Some n}"
proof (induction ts rule: rev_induct)
  case Nil
  then show ?case by (simp add: map_of_type_def)
next
  case (snoc t ts)
  then show ?case
    by (auto simp: map_of_type_step keys_add_to split: option.splits)
qed

lemma category_map_distinct:
  "distinct (map fst (map_of_type ty (fold category_step ts ([], []))))"
proof (induction ts rule: rev_induct)
  case Nil
  then show ?case by (simp add: map_of_type_def)
next
  case (snoc t ts)
  then show ?case
    by (simp add: map_of_type_step distinct_add_to split: option.splits)
qed

lemma category_map_entry:
  assumes "(n, d) \<in> set (map_of_type ty (fold category_step ts ([], [])))"
  shows "members ty n ts \<noteq> [] \<and>
         d = (sum_list (map amount (members ty n ts)), bucket_color (last (members ty n ts)))"
proof -
  have "map_of (map_of_type ty (fold category_step ts ([], []))) n = Some d"
    using assms category_map_distinct [of ty ts] by simp
  then show ?thesis
    by (simp add: category_map_lookup split: if_splits)
qed

lemma names_category_entries: "map name (category_entries m) = map fst m"
  by (induction m) (auto simp: category_entries_def)

lemma set_category_entries:
  "set (category_entries m) = (\<lambda>(k, data). \<lparr> name = k, val = fst data, color = snd data \<rparr>) ` set m"
  by (simp add: category_entries_def)

lemma breakdown_generateReportData:
  "breakdown ty (generateReportData txs s e) =
     category_entries (map_of_type ty (fold category_step (filteredTransactions txs s e) ([], [])))"
  by (simp add: breakdown_def generateReportData_def Let_def map_of_type_def)

lemma breakdown_entry:
  assumes "c \<in> set (category_entries (map_of_type ty (fold category_step ts ([], []))))"
  shows "members ty (name c) ts \<noteq> [] \<and>
         val c = sum_list (map amount (members ty (name c) ts)) \<and>
         color c = bucket_color (last (members ty (name c) ts))"
proof -
  from assms obtain n d
    where nd: "(n, d) \<in> set (map_of_type ty (fold category_step ts ([], [])))"
      and c: "c = \<lparr> name = n, val = fst d, color = snd d \<rparr>"
    by (auto simp: set_category_entries)
  from category_map_entry [OF nd] show ?thesis by (simp add: c)
qed

lemma last_members:
  "members ty n ts \<noteq> [] \<Longrightarrow>
     last (members ty n ts) \<in> set ts \<and> type (last (members ty n ts)) = ty \<and>
     bucket_name (last (members ty n ts)) = Some n"
  using last_in_set [of "members ty n ts"] by (auto simp: members_def)

lemma unresolved_bucket:
  "categories t = None \<Longrightarrow> truthy (category_id t) \<Longrightarrow>
     bucket_name t = Some (uncategorized_label (type t)) \<and>
     bucket_color t = uncategorized_color (type t)"
  by (simp add: bucket_name_def bucket_color_def uncategorized_label_def uncategorized_color_def)

lemma breakdown_unresolved:
  assumes t: "t \<in> set ts" and cat: "categories t = None" and cid: "truthy (category_id t)"
  shows "\<exists>c \<in> set (category_entries (map_of_type (type t) (fold category_step ts ([], [])))).
           name c = uncategorized_label (type t) \<and>
           t \<in> set (members (type t) (name c) ts) \<and>
           ((\<forall>u \<in> set ts. \<forall>k. categories u = Some k \<longrightarrow> c_name k \<noteq> name c) \<longrightarrow>
              color c = uncategorized_color (type t))"
proof -
  let ?ty = "type t"
  let ?n = "uncategorized_label ?ty"
  let ?es = "category_entries (map_of_type ?ty (fold category_step ts ([], [])))"
  have bn: "bucket_name t = Some ?n"
    using unresolved_bucket [OF cat cid] by simp
  then have "?n \<in> fst ` set (map_of_type ?ty (fold category_step ts ([], [])))"
    using t by (auto simp: category_map_keys)
  then have "?n \<in> set (map name ?es)"
    by (simp add: names_category_entries)
  then obtain c where c: "c \<in> set ?es" and nc: "name c = ?n"
    by auto
  have mem: "t \<in> set (members ?ty (name c) ts)"
    using t bn nc by (simp add: members_def)
  have col: "color c = uncategorized_color ?ty"
    if none: "\<forall>u \<in> set ts. \<forall>k. categories u = Some k \<longrightarrow> c_name k \<noteq> name c"
  proof -
    let ?l = "last (members ?ty (name c) ts)"
    from breakdown_entry [OF c]
    have ne: "members ?ty (name c) ts \<noteq> []" and cc: "color c = bucket_color ?l"
      by simp_all
    from last_members [OF ne]
    have l: "?l \<in> set ts" "type ?l = ?ty" "bucket_name ?l = Some (name c)"
      by simp_all
    have "categories ?l = None"
    proof (cases "categories ?l")
      case None
      then show ?thesis .
    next
      case (Some k)
      with l(3) have "c_name k = name c" by (simp add: bucket_name_def)
      with none l(1) Some show ?thesis by blast
    qed
    then show ?thesis
      using cc l(2) by (simp add: bucket_color_def uncategorized_color_def)
  qed
  from c nc mem col show ?thesis by blast
qed

lemma members_joined:
  assumes "n \<noteq> uncategorized_label ty"
  shows "members ty n ts =
           filter (\<lambda>t. type t = ty \<and> map_option c_name (categories t) = Some n) ts"
  unfolding members_def
proof (rule filter_cong [OF refl])
  fix t
  show "(type t = ty \<and> bucket_name t = Some n) =
        (type t = ty \<and> map_option c_name (categories t) = Some n)"
    using assms
    by (cases "categories t") (auto simp: bucket_name_def uncategorized_label_def)
qed

lemma members_unresolved:
  assumes "\<forall>u \<in> set ts. \<forall>k. categories u = Some k \<longrightarrow> c_name k \<noteq> uncategorized_label ty"
  shows "members ty (uncategorized_label ty) ts =
           filter (\<lambda>t. type t = ty \<and> categories t = None \<and> truthy (category_id t)) ts"
  unfolding members_def
proof (rule filter_cong [OF refl])
  fix t
  assume "t \<in> set ts"
  with assms have "\<forall>k. categories t = Some k \<longrightarrow> c_name k \<noteq> uncategorized_label ty"
    by blast
  then show "(type t = ty \<and> bucket_name t = Some (uncategorized_label ty)) =
        (type t = ty \<and> categories t = None \<and> truthy (category_id t))"
    by (cases "categories t") (auto simp: bucket_name_def uncategorized_label_def)
qed

lemma joined_color:
  assumes ne: "members ty n ts \<noteq> []"
    and all: "\<forall>t \<in> set (members ty n ts). map_option c_color (categories t) = Some col"
    and col: "col \<noteq> []"
  shows "bucket_color (last (members ty n ts)) = col"
proof -
  have "last (members ty n ts) \<in> set (members ty n ts)"
    using ne by (rule last_in_set)
  with all have "map_option c_color (categories (last (members ty n ts))) = Some col"
    by blast
  with col show ?thesis
    by (cases "categories (last (members ty n ts))") (auto simp: bucket_color_def)
qed

text \<open>
  C5. For every filtered transaction list and each of the two types, the breakdown of
  that type has one entry for each display name under which a filtered transaction of
  the type is counted and no other entry. The value of an entry is the sum of the
  amounts of the transactions of the type counted under its name: for a name other
  than the synthetic label, those whose joined category has that display name. Its
  colour is the one written by the last of them, so the display colour that those
  categories share. A filtered transaction that has a category reference (a category_id
  that is not empty) but no joined category is counted under "Uncategorized Income" or
  "Uncategorized Expense" according to its type, in the breakdown of its type; unless
  a joined category carries that very name, the entry sums exactly these transactions
  and has the fixed colour of the type.
\<close>

theorem category_breakdowns:
  "let r = generateReportData txs s e;
       filtered = filteredTransactions txs s e
   in (\<forall>ty.
         distinct (map name (breakdown ty r)) \<and>
         set (map name (breakdown ty r)) =
           {n. \<exists>t \<in> set filtered. type t = ty \<and> bucket_name t = Some n} \<and>
         (\<forall>c \<in> set (breakdown ty r).
            members ty (name c) filtered \<noteq> [] \<and>
            val c = sum_list (map amount (members ty (name c) filtered)) \<and>
            color c = bucket_color (last (members ty (name c) filtered)) \<and>
            (name c \<noteq> uncategorized_label ty \<longrightarrow>
               val c = sum_list (map amount (filter (\<lambda>t. type t = ty \<and>
                         map_option c_name (categories t) = Some (name c)) filtered))) \<and>
            (\<forall>col. col \<noteq> [] \<and>
               (\<forall>t \<in> set (members ty (name c) filtered).
                  map_option c_color (categories t) = Some col) \<longrightarrow> color c = col) \<and>
            (name c = uncategorized_label ty \<and>
             (\<forall>u \<in> set filtered. \<forall>k. categories u = Some k \<longrightarrow> c_name k \<noteq> name c) \<longrightarrow>
               val c = sum_list (map amount (filter (\<lambda>t. type t = ty \<and> categories t = None \<and>
                         truthy (category_id t)) filtered)) \<and>
               color c = uncategorized_color ty))) \<and>
      (\<forall>t \<in> set filtered. categories t = None \<and> truthy (category_id t) \<longrightarrow>
         (\<exists>c \<in> set (breakdown (type t) r).
            name c = uncategorized_label (type t) \<and>
            t \<in> set (members (type t) (name c) filtered)))"
proof -
  let ?f = "filteredTransactions txs s e"
  let ?r = "generateReportData txs s e"
  have a: "distinct (map name (breakdown ty ?r))" for ty
    by (simp only: breakdown_generateReportData names_category_entries category_map_distinct)
  have b: "set (map name (breakdown ty ?r)) =
           {n. \<exists>t \<in> set ?f. type t = ty \<and> bucket_name t = Some n}" for ty
    by (simp only: breakdown_generateReportData names_category_entries set_map category_map_keys)
  have c: "members ty (name c) ?f \<noteq> [] \<and>
            val c = sum_list (map amount (members ty (name c) ?f)) \<and>
            color c = bucket_color (last (members ty (name c) ?f))"
    if "c \<in> set (breakdown ty ?r)" for ty c
    using that unfolding breakdown_generateReportData by (rule breakdown_entry)
  have j: "val c = sum_list (map amount (filter (\<lambda>t. type t = ty \<and>
                         map_option c_name (categories t) = Some (name c)) ?f))"
    if "c \<in> set (breakdown ty ?r)" "name c \<noteq> uncategorized_label ty" for ty c
    using c [OF that(1)] members_joined [OF that(2), of ?f] by simp
  have k: "color c = col"
    if "c \<in> set (breakdown ty ?r)" "col \<noteq> []"
      "\<forall>t \<in> set (members ty (name c) ?f). map_option c_color (categories t) = Some col"
    for ty c col
    using c [OF that(1)] joined_color [of ty "name c" ?f col] that(2,3) by simp
  have u: "val c = sum_list (map amount (filter (\<lambda>t. type t = ty \<and> categories t = None \<and>
                         truthy (category_id t)) ?f)) \<and>
           color c = uncategorized_color ty"
    if cin: "c \<in> set (breakdown ty ?r)" and nm: "name c = uncategorized_label ty"
      and none: "\<forall>u \<in> set ?f. \<forall>k. categories u = Some k \<longrightarrow> c_name k \<noteq> name c"
    for ty c
  proof -
    from none have none': "\<forall>u \<in> set ?f. \<forall>k. categories u = Some k \<longrightarrow>
        c_name k \<noteq> uncategorized_label ty"
      by (simp add: nm)
    have m: "members ty (name c) ?f =
          filter (\<lambda>t. type t = ty \<and> categories t = None \<and> truthy (category_id t)) ?f"
      unfolding nm by (rule members_unresolved [OF none'])
    from c [OF cin] have ne: "members ty (name c) ?f \<noteq> []"
      and v: "val c = sum_list (map amount (members ty (name c) ?f))"
      and cc: "color c = bucket_color (last (members ty (name c) ?f))"
      by simp_all
    have "last (members ty (name c) ?f) \<in> set (members ty (name c) ?f)"
      using ne by (rule last_in_set)
    then have "type (last (members ty (name c) ?f)) = ty"
      and "categories (last (members ty (name c) ?f)) = None"
      unfolding m by simp_all
    then have "bucket_color (last (members ty (name c) ?f)) = uncategorized_color ty"
      by (simp add: bucket_color_def uncategorized_color_def)
    with v cc m show ?thesis by simp
  qed
  have d: "\<exists>c \<in> set (breakdown (type t) ?r).
            name c = uncategorized_label (type t) \<and>
            t \<in> set (members (type t) (name c) ?f)"
    if "t \<in> set ?f" "categories t = None" "truthy (category_id t)" for t
    using breakdown_unresolved [OF that] unfolding breakdown_generateReportData by blast
  show ?thesis
    unfolding Let_def using a b c j k u d by blast
qed


text \<open>
  An instance: two income transactions of the category Sales, one income and one
  expense transaction with a category reference but no joined category.
\<close>

theorem category_breakdowns_witness:
  "(let r = generateReportData breakdown_txs (mk_date 2024 1 1) (mk_date 2024 1 31) in
      incomeByCategory r =
        [\<lparr> name = ''Sales'', val = 120, color = ''#3b82f6'' \<rparr>,
         \<lparr> name = ''Uncategorized Income'', val = 50, color = ''#10b981'' \<rparr>] \<and>
      expensesByCategory r =
        [\<lparr> name = ''Uncategorized Expense'', val = 30, color = ''#ef4444'' \<rparr>]) \<and>
   (\<exists>t \<in> set (filteredTransactions breakdown_txs (mk_date 2024 1 1) (mk_date 2024 1 31)).
      categories t = None \<and> truthy (category_id t) \<and>
      (\<exists>c \<in> set (breakdown (type t)
                 (generateReportData breakdown_txs (mk_date 2024 1 1) (mk_date 2024 1 31))).
         name c = uncategorized_label (type t)))"
proof -
  let ?t = "(mk_tx ''2'' 50 Income 2024 1 11) \<lparr> category_id := Some ''7'' \<rparr>"
  have ev: "let r = generateReportData breakdown_txs (mk_date 2024 1 1) (mk_date 2024 1 31) in
      incomeByCategory r =
        [\<lparr> name = ''Sales'', val = 120, color = ''#3b82f6'' \<rparr>,
         \<lparr> name = ''Uncategorized Income'', val = 50, color = ''#10b981'' \<rparr>] \<and>
      expensesByCategory r =
        [\<lparr> name = ''Uncategorized Expense'', val = 30, color = ''#ef4444'' \<rparr>]"
    by code_simp
  have t: "?t \<in> set (filteredTransactions breakdown_txs (mk_date 2024 1 1) (mk_date 2024 1 31))"
    by code_simp
  have h: "categories ?t = None \<and> truthy (category_id ?t)"
    by code_simp
  from category_breakdowns [of breakdown_txs "mk_date 2024 1 1" "mk_date 2024 1 31"] t h
  have "\<exists>c \<in> set (breakdown (type ?t)
                 (generateReportData breakdown_txs (mk_date 2024 1 1) (mk_date 2024 1 31))).
         name c = uncategorized_label (type ?t)"
    unfolding Let_def by blast
  with ev t h show ?thesis
    by blast
qed

lemma category_step_skip:
  "categories t = None \<Longrightarrow> \<not> truthy (category_id t) \<Longrightarrow> category_step t maps = maps"
  by (simp add: category_step_def)

lemma filteredTransactions_insert:
  "filteredTransactions (xs @ t # ys) s e =
     (if getTime s \<le> getTime (date t) \<and> getTime (date t) \<le> getTime e
      then filteredTransactions xs s e @ t # filteredTransactions ys s e
      else filteredTransactions (xs @ ys) s e)"
  by (simp add: filteredTransactions_def)

lemma filteredTransactions_append:
  "filteredTransactions (xs @ ys) s e = filteredTransactions xs s e @ filteredTransactions ys s e"
  by (simp add: filteredTransactions_def)

lemma month_income_insert:
  "month_income k (as @ t # bs) =
     month_income k (as @ bs) + (if type t = Income \<and> toLocaleDateString (date t) = k then amount t else 0)"
  by (simp add: month_income_def)

lemma month_expenses_insert:
  "month_expenses k (as @ t # bs) =
     month_expenses k (as @ bs) + (if type t = Expense \<and> toLocaleDateString (date t) = k then amount t else 0)"
  by (simp add: month_expenses_def)

lemma monthly_entry_of_member:
  assumes "t \<in> set ts"
  shows "\<exists>x \<in> set (sortedMonthlyData (fold monthly_step ts [])).
           month x = toLocaleDateString (date t) \<and>
           income x = month_income (month x) ts \<and>
           expenses x = month_expenses (month x) ts \<and>
           profit x = income x - expenses x"
proof -
  let ?M = "fold monthly_step ts []"
  let ?k = "toLocaleDateString (date t)"
  have "?k \<in> fst ` set ?M"
    using assms by (auto simp: monthly_map_keys)
  then obtain d where kd: "(?k, d) \<in> set ?M"
    by auto
  let ?x = "\<lparr> month = ?k, income = fst d, expenses = fst (snd d), profit = snd (snd d) \<rparr>"
  have "?x \<in> set (sortedMonthlyData ?M)"
    using kd by (force simp: set_sortedMonthlyData)
  moreover from monthly_map_entry [OF kd]
  have "income ?x = month_income ?k ts \<and> expenses ?x = month_expenses ?k ts \<and>
        profit ?x = income ?x - expenses ?x"
    by simp
  ultimately show ?thesis
    by (intro bexI [of _ ?x]) simp_all
qed

text \<open>
  C9. A filtered transaction without joined category and without category reference
  (null, or the empty string) adds its amount to the total of its type and to the
  entry of its month in the monthly trend, and both category breakdowns are what they
  are without it: it is in no bucket.
\<close>

theorem no_category_reference_excluded_from_breakdowns:
  assumes cat: "categories t = None" and cid: "\<not> truthy (category_id t)"
    and rng: "getTime s \<le> getTime (date t)" "getTime (date t) \<le> getTime e"
  shows
    "let r = generateReportData (xs @ t # ys) s e;
         r0 = generateReportData (xs @ ys) s e;
         f0 = filteredTransactions (xs @ ys) s e;
         k = toLocaleDateString (date t)
     in incomeByCategory r = incomeByCategory r0 \<and>
        expensesByCategory r = expensesByCategory r0 \<and>
        totalIncome r = totalIncome r0 + (if type t = Income then amount t else 0) \<and>
        totalExpenses r = totalExpenses r0 + (if type t = Expense then amount t else 0) \<and>
        (\<exists>x \<in> set (monthlyData r).
           month x = k \<and>
           income x = month_income k f0 + (if type t = Income then amount t else 0) \<and>
           expenses x = month_expenses k f0 + (if type t = Expense then amount t else 0) \<and>
           profit x = income x - expenses x)"
proof -
  let ?A = "filteredTransactions xs s e"
  let ?B = "filteredTransactions ys s e"
  have f: "filteredTransactions (xs @ t # ys) s e = ?A @ t # ?B"
    using rng by (simp add: filteredTransactions_insert)
  have f0: "filteredTransactions (xs @ ys) s e = ?A @ ?B"
    by (rule filteredTransactions_append)
  have c1: "incomeByCategory (generateReportData (xs @ t # ys) s e) =
            incomeByCategory (generateReportData (xs @ ys) s e)"
    by (simp add: generateReportData_def Let_def f f0 category_step_skip [OF cat cid])
  have c2: "expensesByCategory (generateReportData (xs @ t # ys) s e) =
            expensesByCategory (generateReportData (xs @ ys) s e)"
    by (simp add: generateReportData_def Let_def f f0 category_step_skip [OF cat cid])
  have t1: "totalIncome (generateReportData (xs @ t # ys) s e) =
            totalIncome (generateReportData (xs @ ys) s e) + (if type t = Income then amount t else 0)"
    by (simp add: generateReportData_def Let_def f f0 foldl_add_sum)
  have t2: "totalExpenses (generateReportData (xs @ t # ys) s e) =
            totalExpenses (generateReportData (xs @ ys) s e) + (if type t = Expense then amount t else 0)"
    by (simp add: generateReportData_def Let_def f f0 foldl_add_sum)
  have md: "monthlyData (generateReportData (xs @ t # ys) s e) =
            sortedMonthlyData (fold monthly_step (?A @ t # ?B) [])"
    by (simp add: generateReportData_def Let_def f)
  have "t \<in> set (?A @ t # ?B)" by simp
  from monthly_entry_of_member [OF this]
  obtain x where x: "x \<in> set (sortedMonthlyData (fold monthly_step (?A @ t # ?B) []))"
    and xm: "month x = toLocaleDateString (date t)"
    and xi: "income x = month_income (month x) (?A @ t # ?B)"
    and xe: "expenses x = month_expenses (month x) (?A @ t # ?B)"
    and xp: "profit x = income x - expenses x"
    by blast
  have m: "\<exists>x \<in> set (monthlyData (generateReportData (xs @ t # ys) s e)).
           month x = toLocaleDateString (date t) \<and>
           income x = month_income (toLocaleDateString (date t)) (?A @ ?B)
                        + (if type t = Income then amount t else 0) \<and>
           expenses x = month_expenses (toLocaleDateString (date t)) (?A @ ?B)
                        + (if type t = Expense then amount t else 0) \<and>
           profit x = income x - expenses x"
    unfolding md
    using x xm xi xe xp
    by (intro bexI [of _ x]) (simp_all add: month_income_insert month_expenses_insert)
  show ?thesis
    unfolding Let_def f0 using c1 c2 t1 t2 m by simp
qed

text \<open>
  An instance: an income of 8 without category, added to the four transactions above.
\<close>

theorem no_category_reference_excluded_from_breakdowns_witness:
  "categories (mk_tx ''5'' 8 Income 2024 1 14) = None \<and>
   \<not> truthy (category_id (mk_tx ''5'' 8 Income 2024 1 14)) \<and>
   getTime (mk_date 2024 1 1) \<le> getTime (date (mk_tx ''5'' 8 Income 2024 1 14)) \<and>
   getTime (date (mk_tx ''5'' 8 Income 2024 1 14)) \<le> getTime (mk_date 2024 1 31) \<and>
   (let r = generateReportData (breakdown_txs @ mk_tx ''5'' 8 Income 2024 1 14 # [])
              (mk_date 2024 1 1) (mk_date 2024 1 31);
        r0 = generateReportData (breakdown_txs @ []) (mk_date 2024 1 1) (mk_date 2024 1 31)
    in incomeByCategory r = incomeByCategory r0 \<and>
       expensesByCategory r = expensesByCategory r0 \<and>
       totalIncome r = totalIncome r0 + 8 \<and>
       totalExpenses r = totalExpenses r0)"
proof -
  have h: "categories (mk_tx ''5'' 8 Income 2024 1 14) = None"
    "\<not> truthy (category_id (mk_tx ''5'' 8 Income 2024 1 14))"
    "getTime (mk_date 2024 1 1) \<le> getTime (date (mk_tx ''5'' 8 Income 2024 1 14))"
    "getTime (date (mk_tx ''5'' 8 Income 2024 1 14)) \<le> getTime (mk_date 2024 1 31)"
    by (simp_all add: mk_tx_def mk_date_def truthy_def getTime_def)
  have ty: "type (mk_tx ''5'' 8 Income 2024 1 14) = Income"
    "amount (mk_tx ''5'' 8 Income 2024 1 14) = 8"
    by (simp_all add: mk_tx_def)
  from no_category_reference_excluded_from_breakdowns [OF h, of breakdown_txs "[]"]
  have "let r = generateReportData (breakdown_txs @ mk_tx ''5'' 8 Income 2024 1 14 # [])
              (mk_date 2024 1 1) (mk_date 2024 1 31);
        r0 = generateReportData (breakdown_txs @ []) (mk_date 2024 1 1) (mk_date 2024 1 31)
    in incomeByCategory r = incomeByCategory r0 \<and>
       expensesByCategory r = expensesByCategory r0 \<and>
       totalIncome r = totalIncome r0 + 8 \<and>
       totalExpenses r = totalExpenses r0"
    unfolding Let_def ty by simp
  with h show ?thesis
    by blast
qed

section \<open>Theorems about the Ledger API\<close>

lemma signup_columns:
  "returning [''id'', ''name'', ''email'', ''user_type'', ''organization_name'', ''organization_id'']
     (users_columns row) =
   [(''id'', JNum (of_nat (u_id row))),
    (''name'', json_opt (u_name row)),
    (''email'', JStr (u_email row)),
    (''user_type'', JStr (u_user_type row)),
    (''organization_name'', json_opt (u_organization_name row)),
    (''organization_id'', json_opt (u_organization_id row))]"
  by (simp add: users_columns_def)

lemma login_columns:
  "filter (\<lambda>kv. fst kv \<noteq> ''password'') (users_columns u) =
   [(''id'', JNum (of_nat (u_id u))),
    (''name'', json_opt (u_name u)),
    (''email'', JStr (u_email u)),
    (''user_type'', JStr (u_user_type u)),
    (''organization_name'', json_opt (u_organization_name u)),
    (''organization_id'', json_opt (u_organization_id u)),
    (''created_at'', JStr (u_created_at u))]"
  by (simp add: users_columns_def)

lemma insert_user_Inr:
  "insert_user db now nm email ut orgn orgi pw = (Inr row, db') \<Longrightarrow>
     users db' = users db @ [row] \<and> u_password row = pw \<and> u_email row = email"
  by (auto simp: insert_user_def Let_def split: if_splits)

lemma login_200:
  assumes "status (login db compare req) = 200"
  shows "\<exists>u \<in> set (users db).
           Some (u_email u) = lb_email req \<and>
           body (login db compare req) =
             JObj [(''message'', JStr ''Login successful''),
                   (''user'', JObj (filter (\<lambda>kv. fst kv \<noteq> ''password'') (users_columns u)))]"
proof (cases "filter (\<lambda>u. Some (u_email u) = lb_email req) (users db)")
  case Nil
  with assms show ?thesis by (simp add: login_def split: if_splits)
next
  case (Cons u rest)
  then have "u \<in> set (filter (\<lambda>u. Some (u_email u) = lb_email req) (users db))" by simp
  then have "u \<in> set (users db)" "Some (u_email u) = lb_email req" by simp_all
  with assms Cons show ?thesis
    by (auto simp: login_def Let_def split: if_splits)
qed

lemma signup_201:
  assumes "signup db hash now req = (res, db')" "status res = 201"
  shows "\<exists>row. users db' = users db @ [row] \<and> u_password row = hash (the (sb_password req)) \<and>
           body res = JObj (returning [''id'', ''name'', ''email'', ''user_type'',
                                        ''organization_name'', ''organization_id'']
                               (users_columns row))"
  using assms
  by (auto simp: signup_def Let_def split: if_splits prod.splits sum.splits dest!: insert_user_Inr)

text \<open>
  C8. A successful login (status 200) replies with the message and the user object,
  which is the matched row without its \<^verbatim>\<open>password\<close> column; a successful signup
  (status 201) stores a row whose password is the hash and replies with the columns
  id, name, email, user_type, organization_name and organization_id of that row. In
  neither reply is there a \<^verbatim>\<open>password\<close> field.
\<close>

theorem login_signup_replies_without_password:
  "(status (login db compare req) = 200 \<longrightarrow>
      (\<exists>u \<in> set (users db). \<exists>obj.
         body (login db compare req) =
           JObj [(''message'', JStr ''Login successful''), (''user'', JObj obj)] \<and>
         ''password'' \<notin> fst ` set obj \<and>
         obj = [(''id'', JNum (of_nat (u_id u))),
                (''name'', json_opt (u_name u)),
                (''email'', JStr (u_email u)),
                (''user_type'', JStr (u_user_type u)),
                (''organization_name'', json_opt (u_organization_name u)),
                (''organization_id'', json_opt (u_organization_id u)),
                (''created_at'', JStr (u_created_at u))])) \<and>
   (status (fst (signup db hash now sreq)) = 201 \<longrightarrow>
      (\<exists>row obj.
         users (snd (signup db hash now sreq)) = users db @ [row] \<and>
         u_password row = hash (the (sb_password sreq)) \<and>
         body (fst (signup db hash now sreq)) = JObj obj \<and>
         ''password'' \<notin> fst ` set obj \<and>
         obj = [(''id'', JNum (of_nat (u_id row))),
                (''name'', json_opt (u_name row)),
                (''email'', JStr (u_email row)),
                (''user_type'', JStr (u_user_type row)),
                (''organization_name'', json_opt (u_organization_name row)),
                (''organization_id'', json_opt (u_organization_id row))]))"
proof (intro conjI impI)
  assume "status (login db compare req) = 200"
  from login_200 [OF this] show "\<exists>u \<in> set (users db). \<exists>obj.
         body (login db compare req) =
           JObj [(''message'', JStr ''Login successful''), (''user'', JObj obj)] \<and>
         ''password'' \<notin> fst ` set obj \<and>
         obj = [(''id'', JNum (of_nat (u_id u))),
                (''name'', json_opt (u_name u)),
                (''email'', JStr (u_email u)),
                (''user_type'', JStr (u_user_type u)),
                (''organization_name'', json_opt (u_organization_name u)),
                (''organization_id'', json_opt (u_organization_id u)),
                (''created_at'', JStr (u_created_at u))]"
    unfolding login_columns by auto
next
  assume a: "status (fst (signup db hash now sreq)) = 201"
  have "signup db hash now sreq = (fst (signup db hash now sreq), snd (signup db hash now sreq))"
    by simp
  from signup_201 [OF this a] show "\<exists>row obj.
         users (snd (signup db hash now sreq)) = users db @ [row] \<and>
         u_password row = hash (the (sb_password sreq)) \<and>
         body (fst (signup db hash now sreq)) = JObj obj \<and>
         ''password'' \<notin> fst ` set obj \<and>
         obj = [(''id'', JNum (of_nat (u_id row))),
                (''name'', json_opt (u_name row)),
                (''email'', JStr (u_email row)),
                (''user_type'', JStr (u_user_type row)),
                (''organization_name'', json_opt (u_organization_name row)),
                (''organization_id'', json_opt (u_organization_id row))]"
    unfolding signup_columns by auto
qed

text \<open>An instance: a login and a signup that succeed on the sample store.\<close>

theorem login_signup_replies_without_password_witness:
  "status (login sample_store sample_compare sample_login) = 200 \<and>
   status (fst (signup sample_store sample_hash ''2024-02-01 10:00:00'' sample_signup)) = 201 \<and>
   (\<exists>obj. body (login sample_store sample_compare sample_login) =
            JObj [(''message'', JStr ''Login successful''), (''user'', JObj obj)] \<and>
          ''password'' \<notin> fst ` set obj) \<and>
   (\<exists>obj. body (fst (signup sample_store sample_hash ''2024-02-01 10:00:00'' sample_signup)) =
            JObj obj \<and>
          ''password'' \<notin> fst ` set obj)"
proof -
  have a: "status (login sample_store sample_compare sample_login) = 200"
    by code_simp
  have b: "status (fst (signup sample_store sample_hash ''2024-02-01 10:00:00'' sample_signup)) = 201"
    by code_simp
  from login_signup_replies_without_password
         [of sample_store sample_compare sample_login sample_hash "''2024-02-01 10:00:00''"
             sample_signup] a b
  show ?thesis
    by blast
qed
















end
